theory Spec2Isabelle
  imports Main "HOL-Library.Word"
begin

section \<open>Strings\<close>

text \<open>
  A JavaScript string is a sequence of UTF-16 code units. The helper \<open>ascii\<close> writes
  a string of ASCII characters as such a sequence, for readable examples.
\<close>

type_synonym jschar = "16 word"
type_synonym jsstring = "jschar list"

definition ascii :: "string \<Rightarrow> jsstring" where
  "ascii s = map of_char s"

text \<open>
  The ECMAScript \<open>LineTerminator\<close> code units (LF, CR, LS, PS): the ones the regular
  expression atom \<open>.\<close> does not match.
\<close>

definition isLineTerminator :: "jschar \<Rightarrow> bool" where
  "isLineTerminator c \<longleftrightarrow> c = 0x0A \<or> c = 0x0D \<or> c = 0x2028 \<or> c = 0x2029"

text \<open>
  The code units matched by the regular expression class \<open>\s\<close> and stripped by
  \<open>String.prototype.trim\<close>: \<open>WhiteSpace\<close> (TAB, VT, FF, ZWNBSP and the Unicode
  space separators) together with \<open>LineTerminator\<close>.
\<close>

definition isWhiteSpace :: "jschar \<Rightarrow> bool" where
  "isWhiteSpace c \<longleftrightarrow>
     c = 0x09 \<or> c = 0x0B \<or> c = 0x0C \<or> c = 0x20 \<or> c = 0xA0 \<or> c = 0x1680 \<or>
     (0x2000 \<le> c \<and> c \<le> 0x200A) \<or> c = 0x202F \<or> c = 0x205F \<or> c = 0x3000 \<or>
     c = 0xFEFF \<or> isLineTerminator c"

text \<open>\<open>s.trim()\<close>\<close>

definition trim :: "jsstring \<Rightarrow> jsstring" where
  "trim s = rev (dropWhile isWhiteSpace (rev (dropWhile isWhiteSpace s)))"

text \<open>
  \<open>s.split("\n")\<close>: the pieces between the LF code units, in order; the empty string
  gives one empty piece, and a trailing LF gives a last empty piece.
\<close>

fun split_newline :: "jsstring \<Rightarrow> jsstring list" where
  "split_newline [] = [[]]"
| "split_newline (c # cs) =
     (if c = 0x0A then [] # split_newline cs
      else (case split_newline cs of
              [] \<Rightarrow> [[c]]
            | l # ls \<Rightarrow> (c # l) # ls))"

section \<open>The four regular expressions\<close>

text \<open>
  Each of the four regular expressions of \<open>extractMetadata\<close> has the shape
  \<^verbatim>\<open>/--\s*KEY(.*)/\<close> where \<open>KEY\<close> is a keyword with its colon. \<open>Annotation KEY\<close>
  stands for that expression.
\<close>

datatype regex = Annotation jsstring

definition aliasRegex :: regex where
  "aliasRegex = Annotation (ascii ''alias:'')"

definition domainRegex :: regex where
  "domainRegex = Annotation (ascii ''domain:'')"

definition styleRegex :: regex where
  "styleRegex = Annotation (ascii ''style:'')"

definition variationRegex :: regex where
  "variationRegex = Annotation (ascii ''variation:'')"

text \<open>
  An attempt to match the expression with the match starting at the head of \<open>s\<close>. The
  two hyphens are literal. The greedy \<open>\s*\<close> takes every white space code unit that
  follows; giving some of them back cannot help, since the keyword would then have to
  start with a white space code unit. The keyword is compared code unit by code unit
  (the expressions carry no \<open>i\<close> flag). The greedy group \<open>(.*)\<close> takes everything up to
  the first line terminator or the end of the string. The result is the text of group 1.
\<close>

fun match_here :: "regex \<Rightarrow> jsstring \<Rightarrow> jsstring option" where
  "match_here (Annotation key) (c1 # c2 # r) =
     (if c1 = 0x2D \<and> c2 = 0x2D then
        (let r' = dropWhile isWhiteSpace r in
         if take (length key) r' = key
         then Some (takeWhile (\<lambda>c. \<not> isLineTerminator c) (drop (length key) r'))
         else None)
      else None)"
| "match_here (Annotation key) _ = None"

text \<open>
  \<open>line.match(re)\<close> for an expression without the \<open>g\<close> flag: the match attempts start
  at index 0, then 1, and so on, and the first success is the result; \<open>None\<close> is the
  \<open>null\<close> of no match, \<open>Some g\<close> a match whose group 1 is \<open>g\<close>.
\<close>

fun match :: "jsstring \<Rightarrow> regex \<Rightarrow> jsstring option" where
  "match [] re = match_here re []"
| "match (c # cs) re =
     (case match_here re (c # cs) of
        Some g \<Rightarrow> Some g
      | None \<Rightarrow> match cs re)"

section \<open>Alias entries and the binding of \<open>this\<close>\<close>

text \<open>An entry of the alias table: the interface \<open>Alias\<close>.\<close>

record Alias =
  domain :: jsstring
  style :: jsstring

datatype error = TypeError | ReadError

text \<open>
  \<open>TypeError\<close> is what reading a property of \<open>undefined\<close> throws; \<open>ReadError\<close> stands for
  whatever a file read may throw or reject with.
\<close>

text \<open>
  An awaited promise is either rejected with an error (\<open>Inl\<close>) or fulfilled with a
  value (\<open>Inr\<close>).
\<close>

type_synonym 'a promise = "error + 'a"

text \<open>
  The value of \<open>this\<close> seen by the expression \<open>this.plugin.settings.aliases[aliasName]\<close>.
  \<open>extractMetadata\<close> is an arrow function declared at the top level of the module, and
  so is the callback inside it. Arrow functions have no \<open>this\<close> of their own: the
  expression reads the \<open>this\<close> of the module. That is \<open>undefined\<close> in an ECMAScript module,
  and the exports object, which has no \<open>plugin\<close> property, in a CommonJS module. No call
  of \<open>extractMetadata\<close> can give the expression another \<open>this\<close>; the plugin instance and
  its alias table are out of its reach.
\<close>

datatype js_this = This_undefined | This_exports

text \<open>
  The file has \<open>import\<close> and \<open>export\<close> declarations: it is an ECMAScript module.
\<close>

definition module_this :: js_this where
  "module_this = This_undefined"

text \<open>
  \<open>this.plugin.settings.aliases[aliasName]\<close>. Reading a property of \<open>undefined\<close> throws
  a \<open>TypeError\<close>: at \<open>.plugin\<close> when \<open>this\<close> is \<open>undefined\<close>, and at \<open>.settings\<close> when
  \<open>this\<close> is the exports object, whose \<open>plugin\<close> is \<open>undefined\<close>. The expression is
  never evaluated as far as the table. In the type of the result, \<open>Inr None\<close> is the
  \<open>undefined\<close> of a missing key and \<open>Inr (Some a)\<close> an entry of the table: the two
  outcomes that the statements after the lookup tell apart.
\<close>

fun alias_lookup :: "js_this \<Rightarrow> jsstring \<Rightarrow> error + Alias option" where
  "alias_lookup This_undefined aliasName = Inl TypeError"
| "alias_lookup This_exports aliasName = Inl TypeError"

section \<open>extractMetadata\<close>

record Meta =
  style :: jsstring
  domain :: jsstring
  variation :: jsstring

text \<open>The four \<open>let\<close> variables of \<open>extractMetadata\<close> that the callback assigns.\<close>

record Locals =
  domain :: jsstring
  style :: jsstring
  variation :: jsstring
  aliasName :: jsstring

definition initial :: Locals where
  "initial = \<lparr>Locals.domain = [], style = [], variation = [], aliasName = []\<rparr>"

text \<open>
  The first \<open>if\<close> block of the callback. \<open>aliasName\<close> is assigned before the lookup is
  evaluated, so the assignment stays when the lookup throws.
\<close>

definition alias_block :: "js_this \<Rightarrow> jsstring \<Rightarrow> Locals \<Rightarrow> (error + unit) \<times> Locals" where
  "alias_block this line vs =
     (case match line aliasRegex of
        None \<Rightarrow> (Inr (), vs)
      | Some g \<Rightarrow>
          (let vs1 = vs\<lparr>aliasName := trim g\<rparr> in
           case alias_lookup this (aliasName vs1) of
             Inl e \<Rightarrow> (Inl e, vs1)
           | Inr None \<Rightarrow> (Inr (), vs1)
           | Inr (Some aliasConfig) \<Rightarrow>
               (Inr (), vs1\<lparr>Locals.domain := Alias.domain aliasConfig,
                              Locals.style := Alias.style aliasConfig\<rparr>)))"

definition domain_block :: "jsstring \<Rightarrow> Locals \<Rightarrow> Locals" where
  "domain_block line vs =
     (case match line domainRegex of
        None \<Rightarrow> vs
      | Some g \<Rightarrow> vs\<lparr>Locals.domain := trim g\<rparr>)"

definition style_block :: "jsstring \<Rightarrow> Locals \<Rightarrow> Locals" where
  "style_block line vs =
     (case match line styleRegex of
        None \<Rightarrow> vs
      | Some g \<Rightarrow> vs\<lparr>Locals.style := trim g\<rparr>)"

definition variation_block :: "jsstring \<Rightarrow> Locals \<Rightarrow> Locals" where
  "variation_block line vs =
     (case match line variationRegex of
        None \<Rightarrow> vs
      | Some g \<Rightarrow> vs\<lparr>Locals.variation := trim g\<rparr>)"

text \<open>
  The \<open>async\<close> callback given to \<open>forEach\<close>. Its body has no \<open>await\<close>, so a call runs the
  body to its end, or to the first throw, before it returns its promise: fulfilled at
  the end of the body, rejected with the error thrown. The assignments made before a
  throw stay; the statements after it do not run.
\<close>

definition callback :: "js_this \<Rightarrow> jsstring \<Rightarrow> Locals \<Rightarrow> unit promise \<times> Locals" where
  "callback this line vs =
     (case alias_block this line vs of
        (Inl e, vs1) \<Rightarrow> (Inl e, vs1)
      | (Inr u, vs1) \<Rightarrow>
          (Inr (), variation_block line (style_block line (domain_block line vs1))))"

text \<open>
  \<open>lines.forEach(f)\<close> calls \<open>f\<close> on each element in order and drops what \<open>f\<close> returns:
  here the promise of each call, which nothing awaits or handles.
\<close>

fun forEach :: "('a \<Rightarrow> 's \<Rightarrow> 'r \<times> 's) \<Rightarrow> 'a list \<Rightarrow> 's \<Rightarrow> 's" where
  "forEach f [] s = s"
| "forEach f (x # xs) s = forEach f xs (snd (f x s))"

definition extractMetadata :: "js_this \<Rightarrow> jsstring \<Rightarrow> Meta promise" where
  "extractMetadata this substance =
     (let lines = split_newline substance;
          vs = forEach (callback this) lines initial
      in Inr \<lparr>Meta.style = Locals.style vs,
              domain = Locals.domain vs,
              variation = Locals.variation vs\<rparr>)"

text \<open>
  Reading the property named \<open>f\<close> of the object \<open>{ style, domain, variation }\<close> that
  \<open>extractMetadata\<close> returns; \<open>None\<close> is the \<open>undefined\<close> of a property the object does
  not have.
\<close>

definition property :: "Meta \<Rightarrow> string \<Rightarrow> jsstring option" where
  "property m f =
     (if f = ''style'' then Some (Meta.style m)
      else if f = ''domain'' then Some (Meta.domain m)
      else if f = ''variation'' then Some (Meta.variation m)
      else None)"

section \<open>getTrio\<close>

record Trio =
  substance :: jsstring
  style :: jsstring
  domain :: jsstring
  variation :: jsstring

text \<open>
  One call \<open>readFile(path)\<close>: the promise that the call returns, and the path added at
  the end of the list of the calls made so far.
\<close>

definition invoke ::
  "(jsstring \<Rightarrow> jsstring promise) \<Rightarrow> jsstring \<Rightarrow> jsstring list \<Rightarrow>
     jsstring promise \<times> jsstring list" where
  "invoke readFile path calls = (readFile path, calls @ [path])"

text \<open>
  \<open>getTrio\<close> with its \<open>readFile\<close> parameter. The second component of the result is the
  list of the calls of \<open>readFile\<close> that were made, in order, each with the path it was
  given. An \<open>await\<close> of a rejected promise throws, which rejects the promise of
  \<open>getTrio\<close> and ends it there.
\<close>

definition getTrio ::
  "js_this \<Rightarrow> (jsstring \<Rightarrow> jsstring promise) \<Rightarrow> jsstring \<Rightarrow> Trio promise \<times> jsstring list" where
  "getTrio this readFile source =
     (case extractMetadata this source of
        Inl e \<Rightarrow> (Inl e, [])
      | Inr res \<Rightarrow>
          (case invoke readFile (Meta.style res) [] of
             (Inl e, calls1) \<Rightarrow> (Inl e, calls1)
           | (Inr style', calls1) \<Rightarrow>
               (case invoke readFile (Meta.domain res) calls1 of
                  (Inl e, calls2) \<Rightarrow> (Inl e, calls2)
                | (Inr domain', calls2) \<Rightarrow>
                    (Inr \<lparr>substance = source, style = style', domain = domain',
                          variation = Meta.variation res\<rparr>,
                     calls2))))"

text \<open>
  The \<open>readFile\<close> that the code block processor passes to \<open>getTrio\<close>. The vault maps a
  path to \<open>None\<close> when there is no file at the path, and otherwise to the outcome of
  reading the file. Both failures return the empty string; the message appended to the
  document view is not part of this model.
\<close>

definition vault_readFile :: "(jsstring \<rightharpoonup> jsstring promise) \<Rightarrow> jsstring \<Rightarrow> jsstring promise" where
  "vault_readFile vault path =
     (case vault path of
        None \<Rightarrow> Inr []
      | Some (Inl e) \<Rightarrow> Inr []
      | Some (Inr fileContents) \<Rightarrow> Inr fileContents)"

section \<open>The annotation syntax in the words of the specification\<close>

text \<open>
  The specification gives the annotation lines as the lines of the form \<open>-- tag: value\<close>:
  the comment prefix \<open>--\<close>, a space, the tag keyword and, immediately after it, a colon,
  then the value. What it has stored is the text after the colon, trimmed. These two
  definitions follow its words, for \<open>Annotation key\<close> where \<open>key\<close> is the keyword with its
  colon; they are what the expressions of the code are compared with.
\<close>

definition spec_annotation_line :: "regex \<Rightarrow> jsstring \<Rightarrow> bool" where
  "spec_annotation_line re line =
     (case re of Annotation key \<Rightarrow> take (3 + length key) line = ascii ''-- '' @ key)"

definition spec_value :: "regex \<Rightarrow> jsstring \<Rightarrow> jsstring" where
  "spec_value re line =
     (case re of Annotation key \<Rightarrow> trim (drop (3 + length key) line))"

section \<open>Example data\<close>

text \<open>
  A vault with one file, the style \<open>s.style\<close>; reading any other path fails.
\<close>

definition style_only_vault :: "jsstring \<rightharpoonup> jsstring promise" where
  "style_only_vault path =
     (if path = ascii ''s.style'' then Some (Inr (ascii ''canvas { width = 400 }''))
      else None)"

section \<open>Basic facts\<close>

lemma extractMetadata_fulfilled:
  "\<exists>res. extractMetadata this source = Inr res"
  by (simp add: extractMetadata_def Let_def)

lemma getTrio_fulfilled:
  assumes "extractMetadata this source = Inr res"
    and "readFile (Meta.style res) = Inr sb"
    and "readFile (Meta.domain res) = Inr db"
  shows "getTrio this readFile source =
           (Inr \<lparr>substance = source, style = sb, domain = db,
                 variation = Meta.variation res\<rparr>,
            [Meta.style res, Meta.domain res])"
  using assms by (simp add: getTrio_def invoke_def)

lemma vault_readFile_fulfilled:
  "\<exists>body. vault_readFile vault path = Inr body"
  by (simp add: vault_readFile_def split: option.split sum.split)

lemma getTrio_vault_fulfilled:
  "\<exists>trio. fst (getTrio this (vault_readFile vault) source) = Inr trio"
proof -
  obtain res where r: "extractMetadata this source = Inr res"
    using extractMetadata_fulfilled by blast
  obtain sb where s: "vault_readFile vault (Meta.style res) = Inr sb"
    using vault_readFile_fulfilled by blast
  obtain db where d: "vault_readFile vault (Meta.domain res) = Inr db"
    using vault_readFile_fulfilled by blast
  show ?thesis
    using getTrio_fulfilled [OF r s d] by simp
qed

section \<open>The assembled trio\<close>

text \<open>
  C9. Whatever the document and whatever \<open>readFile\<close> does, a trio that \<open>getTrio\<close>
  returns has the source text itself, unchanged, as its \<open>substance\<close>; and \<open>getTrio\<close>
  does return a trio whenever \<open>readFile\<close> never rejects.
\<close>

theorem getTrio_substance_verbatim:
  "(\<forall>trio. fst (getTrio this readFile source) = Inr trio \<longrightarrow> substance trio = source) \<and>
   ((\<forall>path e. readFile path \<noteq> Inl e) \<longrightarrow>
      (\<exists>trio. fst (getTrio this readFile source) = Inr trio \<and> substance trio = source))"
proof (intro conjI allI impI)
  fix trio
  assume "fst (getTrio this readFile source) = Inr trio"
  then show "substance trio = source"
    by (auto simp: getTrio_def invoke_def split: sum.splits)
next
  assume nr: "\<forall>path e. readFile path \<noteq> Inl e"
  obtain res where r: "extractMetadata this source = Inr res"
    using extractMetadata_fulfilled by blast
  obtain sb where s: "readFile (Meta.style res) = Inr sb"
    using nr by (cases "readFile (Meta.style res)") auto
  obtain db where d: "readFile (Meta.domain res) = Inr db"
    using nr by (cases "readFile (Meta.domain res)") auto
  show "\<exists>trio. fst (getTrio this readFile source) = Inr trio \<and> substance trio = source"
    using getTrio_fulfilled [OF r s d] by simp
qed

theorem getTrio_substance_verbatim_witness:
  "(\<forall>path e. (Inr path :: jsstring promise) \<noteq> Inl e) \<and>
   fst (getTrio module_this Inr (ascii ''-- style: s.style\<newline>Set A'')) =
     Inr \<lparr>substance = ascii ''-- style: s.style\<newline>Set A'',
          style = ascii ''s.style'', domain = [], variation = []\<rparr> \<and>
   substance \<lparr>substance = ascii ''-- style: s.style\<newline>Set A'',
          style = ascii ''s.style'', domain = [], variation = []\<rparr> =
     ascii ''-- style: s.style\<newline>Set A''"
proof -
  have e: "fst (getTrio module_this Inr (ascii ''-- style: s.style\<newline>Set A'')) =
     Inr \<lparr>substance = ascii ''-- style: s.style\<newline>Set A'',
          style = ascii ''s.style'', domain = [], variation = []\<rparr>"
    by code_simp
  have n: "\<forall>path e. (Inr path :: jsstring promise) \<noteq> Inl e"
    by simp
  show ?thesis
    using e n getTrio_substance_verbatim
      [of module_this Inr "ascii ''-- style: s.style\<newline>Set A''"]
    by simp
qed

text \<open>
  C7. A read that fails is a read that returns the empty string. When the read of the
  domain fails and the read of the style succeeds, \<open>getTrio\<close> returns a trio with all
  four fields, the domain empty and the style the body that was read; and the other way
  round. \<open>readFile\<close> is called twice and no more, so nothing is retried. With the
  \<open>readFile\<close> of the code block processor, which turns every failure into the empty
  string, \<open>getTrio\<close> always returns a trio.
\<close>

theorem getTrio_fetch_failure_isolated:
  assumes "extractMetadata this source = Inr res"
  shows "(readFile (Meta.domain res) = Inr [] \<and> readFile (Meta.style res) = Inr body \<longrightarrow>
            getTrio this readFile source =
              (Inr \<lparr>substance = source, style = body, domain = [],
                    variation = Meta.variation res\<rparr>,
               [Meta.style res, Meta.domain res])) \<and>
         (readFile (Meta.style res) = Inr [] \<and> readFile (Meta.domain res) = Inr body \<longrightarrow>
            getTrio this readFile source =
              (Inr \<lparr>substance = source, style = [], domain = body,
                    variation = Meta.variation res\<rparr>,
               [Meta.style res, Meta.domain res])) \<and>
         (\<exists>trio. fst (getTrio this (vault_readFile vault) source) = Inr trio)"
  using assms getTrio_vault_fulfilled [of this vault source]
  by (simp add: getTrio_def invoke_def)

theorem getTrio_fetch_failure_isolated_witness:
  "extractMetadata module_this (ascii ''-- domain: d.domain\<newline>-- style: s.style'') =
     Inr \<lparr>Meta.style = ascii ''s.style'', domain = ascii ''d.domain'', variation = []\<rparr> \<and>
   vault_readFile style_only_vault (ascii ''d.domain'') = Inr [] \<and>
   vault_readFile style_only_vault (ascii ''s.style'') = Inr (ascii ''canvas { width = 400 }'') \<and>
   getTrio module_this (vault_readFile style_only_vault)
       (ascii ''-- domain: d.domain\<newline>-- style: s.style'') =
     (Inr \<lparr>substance = ascii ''-- domain: d.domain\<newline>-- style: s.style'',
           style = ascii ''canvas { width = 400 }'', domain = [], variation = []\<rparr>,
      [ascii ''s.style'', ascii ''d.domain''])"
proof -
  have m: "extractMetadata module_this (ascii ''-- domain: d.domain\<newline>-- style: s.style'') =
     Inr \<lparr>Meta.style = ascii ''s.style'', domain = ascii ''d.domain'', variation = []\<rparr>"
    by code_simp
  have d: "vault_readFile style_only_vault (ascii ''d.domain'') = Inr []"
    by code_simp
  have s: "vault_readFile style_only_vault (ascii ''s.style'') =
     Inr (ascii ''canvas { width = 400 }'')"
    by code_simp
  show ?thesis
    using m d s
      getTrio_fetch_failure_isolated
        [OF m, of "vault_readFile style_only_vault" "ascii ''canvas { width = 400 }''"]
    by simp
qed

text \<open>
  C8. \<open>getTrio\<close> calls \<open>readFile\<close> with the style reference of the metadata, awaits it,
  then calls \<open>readFile\<close> with the domain reference and awaits it: the style and the
  domain of the trio are what these two calls returned, and the calls made are these
  two, in this order, each once. If the first call is rejected it is the only call; if
  the second is rejected, both were made. A reference is passed on as it is, also when
  it is the empty string: when both are empty, \<open>readFile\<close> is called twice with the empty
  string and the trio holds what it returned.
\<close>

theorem getTrio_fetch_calls:
  assumes "extractMetadata this source = Inr res"
  shows "(\<forall>sb db. readFile (Meta.style res) = Inr sb \<and> readFile (Meta.domain res) = Inr db \<longrightarrow>
            getTrio this readFile source =
              (Inr \<lparr>substance = source, style = sb, domain = db,
                    variation = Meta.variation res\<rparr>,
               [Meta.style res, Meta.domain res])) \<and>
         (\<forall>sb e. readFile (Meta.style res) = Inr sb \<and> readFile (Meta.domain res) = Inl e \<longrightarrow>
            getTrio this readFile source = (Inl e, [Meta.style res, Meta.domain res])) \<and>
         (\<forall>e. readFile (Meta.style res) = Inl e \<longrightarrow>
            getTrio this readFile source = (Inl e, [Meta.style res])) \<and>
         (\<forall>body. Meta.style res = [] \<and> Meta.domain res = [] \<and> readFile [] = Inr body \<longrightarrow>
            getTrio this readFile source =
              (Inr \<lparr>substance = source, style = body, domain = body,
                    variation = Meta.variation res\<rparr>,
               [[], []]))"
  using assms by (simp add: getTrio_def invoke_def)

theorem getTrio_fetch_calls_witness:
  "extractMetadata module_this (ascii ''-- domain: d.domain\<newline>Set A'') =
     Inr \<lparr>Meta.style = [], domain = ascii ''d.domain'', variation = []\<rparr> \<and>
   getTrio module_this (\<lambda>path. Inr (ascii ''read '' @ path))
       (ascii ''-- domain: d.domain\<newline>Set A'') =
     (Inr \<lparr>substance = ascii ''-- domain: d.domain\<newline>Set A'',
           style = ascii ''read '', domain = ascii ''read d.domain'', variation = []\<rparr>,
      [[], ascii ''d.domain''])"
proof -
  have m: "extractMetadata module_this (ascii ''-- domain: d.domain\<newline>Set A'') =
     Inr \<lparr>Meta.style = [], domain = ascii ''d.domain'', variation = []\<rparr>"
    by code_simp
  have a: "ascii ''read '' @ ascii ''d.domain'' = ascii ''read d.domain''"
    by (simp add: ascii_def)
  show ?thesis
    using m a
      getTrio_fetch_calls [OF m, of "\<lambda>path. Inr (ascii ''read '' @ path)"]
    by simp
qed

section \<open>Alias lines\<close>

text \<open>
  C1. In the module, \<open>this\<close> is \<open>undefined\<close>, the alias lookup throws and the alias line
  sets neither reference. For the document with the alias line \<open>foo\<close> before the line
  for the domain \<open>D2\<close>, the domain is \<open>D2\<close> and the style is empty, not \<open>S1\<close>; with the
  two lines the other way round, the domain is still \<open>D2\<close>, not \<open>D1\<close>.
\<close>

theorem extractMetadata_alias_and_domain:
  "extractMetadata module_this (ascii ''-- alias: foo\<newline>-- domain: D2'') =
     Inr \<lparr>Meta.style = [], domain = ascii ''D2'', variation = []\<rparr> \<and>
   extractMetadata module_this (ascii ''-- domain: D2\<newline>-- alias: foo'') =
     Inr \<lparr>Meta.style = [], domain = ascii ''D2'', variation = []\<rparr>"
proof -
  have a: "extractMetadata module_this (ascii ''-- alias: foo\<newline>-- domain: D2'') =
     Inr \<lparr>Meta.style = [], domain = ascii ''D2'', variation = []\<rparr>"
    by code_simp
  have b: "extractMetadata module_this (ascii ''-- domain: D2\<newline>-- alias: foo'') =
     Inr \<lparr>Meta.style = [], domain = ascii ''D2'', variation = []\<rparr>"
    by code_simp
  show ?thesis
    using a b by simp
qed

text \<open>
  C2. For the document that is the one alias line \<open>foo\<close>, the first block of the callback
  assigns \<open>aliasName\<close> and then throws, so the domain and the style stay empty, and
  \<open>getTrio\<close> calls \<open>readFile\<close> twice with the empty string, not with \<open>S1\<close> and \<open>D1\<close>.
  Here \<open>readFile\<close> is \<open>Inr\<close>: the read of a path returns the path.
\<close>

theorem getTrio_alias_line:
  "alias_block module_this (ascii ''-- alias: foo'') initial =
     (Inl TypeError, initial\<lparr>aliasName := ascii ''foo''\<rparr>) \<and>
   getTrio module_this Inr (ascii ''-- alias: foo'') =
     (Inr \<lparr>substance = ascii ''-- alias: foo'', style = [], domain = [], variation = []\<rparr>,
      [[], []])"
proof -
  have a: "alias_block module_this (ascii ''-- alias: foo'') initial =
     (Inl TypeError, initial\<lparr>aliasName := ascii ''foo''\<rparr>)"
    by code_simp
  have b: "getTrio module_this Inr (ascii ''-- alias: foo'') =
     (Inr \<lparr>substance = ascii ''-- alias: foo'', style = [], domain = [], variation = []\<rparr>,
      [[], []])"
    by code_simp
  show ?thesis
    using a b by simp
qed

section \<open>The callback, line by line\<close>

lemma alias_block_no_match:
  "match line aliasRegex = None \<Longrightarrow> alias_block this line vs = (Inr (), vs)"
  by (simp add: alias_block_def)

lemma alias_block_module_this:
  "match line aliasRegex = Some g \<Longrightarrow>
   alias_block module_this line vs = (Inl TypeError, vs\<lparr>aliasName := trim g\<rparr>)"
  by (simp add: alias_block_def module_this_def Let_def)

lemma callback_no_alias:
  "match line aliasRegex = None \<Longrightarrow>
   callback this line vs =
     (Inr (), variation_block line (style_block line (domain_block line vs)))"
  by (simp add: callback_def alias_block_no_match)

lemma callback_alias_module_this:
  "match line aliasRegex = Some g \<Longrightarrow>
   callback module_this line vs = (Inl TypeError, vs\<lparr>aliasName := trim g\<rparr>)"
  by (simp add: callback_def alias_block_module_this)

lemma callback_alias_exports:
  "match line aliasRegex = Some g \<Longrightarrow>
   callback This_exports line vs = (Inl TypeError, vs\<lparr>aliasName := trim g\<rparr>)"
  by (simp add: callback_def alias_block_def Let_def)

lemma blocks_fields:
  "Locals.domain (variation_block line (style_block line (domain_block line vs))) =
     (case match line domainRegex of None \<Rightarrow> Locals.domain vs | Some g \<Rightarrow> trim g)"
  "Locals.style (variation_block line (style_block line (domain_block line vs))) =
     (case match line styleRegex of None \<Rightarrow> Locals.style vs | Some g \<Rightarrow> trim g)"
  "Locals.variation (variation_block line (style_block line (domain_block line vs))) =
     (case match line variationRegex of None \<Rightarrow> Locals.variation vs | Some g \<Rightarrow> trim g)"
  "aliasName (variation_block line (style_block line (domain_block line vs))) = aliasName vs"
  by (simp_all add: variation_block_def style_block_def domain_block_def split: option.split)

lemma forEach_skips_alias_lines:
  assumes "Locals.domain vs = Locals.domain vs'"
    and "Locals.style vs = Locals.style vs'"
    and "Locals.variation vs = Locals.variation vs'"
  shows "Locals.domain (forEach (callback module_this) lines vs) =
           Locals.domain (forEach (callback module_this)
             (filter (\<lambda>l. match l aliasRegex = None) lines) vs') \<and>
         Locals.style (forEach (callback module_this) lines vs) =
           Locals.style (forEach (callback module_this)
             (filter (\<lambda>l. match l aliasRegex = None) lines) vs') \<and>
         Locals.variation (forEach (callback module_this) lines vs) =
           Locals.variation (forEach (callback module_this)
             (filter (\<lambda>l. match l aliasRegex = None) lines) vs')"
  using assms
proof (induction lines arbitrary: vs vs')
  case Nil
  then show ?case by simp
next
  case (Cons line lines)
  show ?case
  proof (cases "match line aliasRegex")
    case None
    have "Locals.domain (snd (callback module_this line vs)) =
            Locals.domain (snd (callback module_this line vs'))"
      and "Locals.style (snd (callback module_this line vs)) =
            Locals.style (snd (callback module_this line vs'))"
      and "Locals.variation (snd (callback module_this line vs)) =
            Locals.variation (snd (callback module_this line vs'))"
      using Cons.prems
      by (simp_all add: callback_no_alias [OF None] blocks_fields split: option.split)
    from Cons.IH [OF this] None show ?thesis by simp
  next
    case (Some g)
    have "Locals.domain (snd (callback module_this line vs)) = Locals.domain vs'"
      and "Locals.style (snd (callback module_this line vs)) = Locals.style vs'"
      and "Locals.variation (snd (callback module_this line vs)) = Locals.variation vs'"
      using Cons.prems by (simp_all add: callback_alias_module_this [OF Some])
    from Cons.IH [OF this] Some show ?thesis by simp
  qed
qed

text \<open>
  C3. In the module, a line that the alias expression matches makes the callback throw
  at the alias lookup: its promise is rejected with a \<open>TypeError\<close>, \<open>aliasName\<close> has been
  assigned, and the domain, style and variation blocks have not run for that line.
  \<open>forEach\<close> drops the promise, so \<open>extractMetadata\<close> returns all the same, and the
  metadata it returns is the one the other lines give: the lines that the alias
  expression matches can be left out without changing it.
\<close>

theorem alias_line_throws_unawaited:
  "(\<forall>g. match line aliasRegex = Some g \<longrightarrow>
      callback module_this line vs = (Inl TypeError, vs\<lparr>aliasName := trim g\<rparr>)) \<and>
   extractMetadata module_this source =
     (let vs' = forEach (callback module_this)
                  (filter (\<lambda>l. match l aliasRegex = None) (split_newline source)) initial
      in Inr \<lparr>Meta.style = Locals.style vs', domain = Locals.domain vs',
              variation = Locals.variation vs'\<rparr>)"
proof -
  have a: "\<forall>g. match line aliasRegex = Some g \<longrightarrow>
      callback module_this line vs = (Inl TypeError, vs\<lparr>aliasName := trim g\<rparr>)"
    by (simp add: callback_alias_module_this)
  have b: "extractMetadata module_this source =
     (let vs' = forEach (callback module_this)
                  (filter (\<lambda>l. match l aliasRegex = None) (split_newline source)) initial
      in Inr \<lparr>Meta.style = Locals.style vs', domain = Locals.domain vs',
              variation = Locals.variation vs'\<rparr>)"
    using forEach_skips_alias_lines [of initial initial "split_newline source"]
    by (simp add: extractMetadata_def Let_def)
  from a b show ?thesis by blast
qed

theorem alias_line_throws_unawaited_witness:
  "match (ascii ''-- alias: foo'') aliasRegex = Some (ascii '' foo'') \<and>
   callback module_this (ascii ''-- alias: foo'') initial =
     (Inl TypeError, initial\<lparr>aliasName := ascii ''foo''\<rparr>) \<and>
   extractMetadata module_this (ascii ''-- style: S\<newline>-- alias: foo -- style: T'') =
     Inr \<lparr>Meta.style = ascii ''S'', domain = [], variation = []\<rparr>"
proof -
  have m: "match (ascii ''-- alias: foo'') aliasRegex = Some (ascii '' foo'')"
    by code_simp
  have t: "trim (ascii '' foo'') = ascii ''foo''"
    by code_simp
  have f: "(let vs' = forEach (callback module_this)
                  (filter (\<lambda>l. match l aliasRegex = None)
                     (split_newline (ascii ''-- style: S\<newline>-- alias: foo -- style: T''))) initial
      in Inr \<lparr>Meta.style = Locals.style vs', domain = Locals.domain vs',
              variation = Locals.variation vs'\<rparr>) =
     (Inr \<lparr>Meta.style = ascii ''S'', domain = [], variation = []\<rparr> :: Meta promise)"
    by code_simp
  show ?thesis
    using m t f
      alias_line_throws_unawaited
        [of "ascii ''-- alias: foo''" initial
            "ascii ''-- style: S\<newline>-- alias: foo -- style: T''"]
    by simp
qed

text \<open>
  C4. For the line \<open>-- alias: bar\<close>, whatever the alias table holds, the callback assigns
  \<open>aliasName\<close> and then throws at the lookup, before the table is read. The domain and
  the style are as they were before the line, here \<open>D\<close> and \<open>S\<close>, but the failure is not
  silent: the promise of the callback is rejected with a \<open>TypeError\<close>, which nothing
  handles. \<open>extractMetadata\<close> itself returns.
\<close>

theorem unknown_alias_line_throws:
  "callback module_this (ascii ''-- alias: bar'')
     \<lparr>Locals.domain = ascii ''D'', style = ascii ''S'', variation = [], aliasName = []\<rparr> =
     (Inl TypeError,
      \<lparr>Locals.domain = ascii ''D'', style = ascii ''S'', variation = [],
         aliasName = ascii ''bar''\<rparr>) \<and>
   extractMetadata module_this (ascii ''-- alias: bar'') =
     Inr \<lparr>Meta.style = [], domain = [], variation = []\<rparr>"
proof -
  have a: "callback module_this (ascii ''-- alias: bar'')
     \<lparr>Locals.domain = ascii ''D'', style = ascii ''S'', variation = [], aliasName = []\<rparr> =
     (Inl TypeError,
      \<lparr>Locals.domain = ascii ''D'', style = ascii ''S'', variation = [],
         aliasName = ascii ''bar''\<rparr>)"
    by code_simp
  have b: "extractMetadata module_this (ascii ''-- alias: bar'') =
     Inr \<lparr>Meta.style = [], domain = [], variation = []\<rparr>"
    by code_simp
  from a b show ?thesis by simp
qed

section \<open>Documents without annotations\<close>

lemma callback_no_match:
  assumes "match line aliasRegex = None" and "match line domainRegex = None"
    and "match line styleRegex = None" and "match line variationRegex = None"
  shows "callback this line vs = (Inr (), vs)"
  using assms
  by (simp add: callback_no_alias domain_block_def style_block_def variation_block_def)

lemma forEach_no_match:
  assumes "\<forall>line \<in> set lines.
             match line aliasRegex = None \<and> match line domainRegex = None \<and>
             match line styleRegex = None \<and> match line variationRegex = None"
  shows "forEach (callback this) lines vs = vs"
  using assms by (induction lines arbitrary: vs) (simp_all add: callback_no_match)

text \<open>
  C6, as the code has it. For a document none of whose lines is matched by any of the
  four expressions, the four variables are all still empty after the loop, and
  \<open>extractMetadata\<close> returns the record of its three fields, style, domain and variation,
  all empty. \<open>getTrio\<close> then reads the empty reference twice and returns the trio with
  the result of that read as style and domain, the source as substance and the empty
  variation.
\<close>

theorem no_annotations_empty_metadata:
  assumes "\<forall>line \<in> set (split_newline source).
             match line aliasRegex = None \<and> match line domainRegex = None \<and>
             match line styleRegex = None \<and> match line variationRegex = None"
  shows "forEach (callback this) (split_newline source) initial =
           \<lparr>Locals.domain = [], style = [], variation = [], aliasName = []\<rparr> \<and>
         extractMetadata this source =
           Inr \<lparr>Meta.style = [], domain = [], variation = []\<rparr> \<and>
         (\<forall>body. readFile [] = Inr body \<longrightarrow>
            getTrio this readFile source =
              (Inr \<lparr>substance = source, style = body, domain = body, variation = []\<rparr>,
               [[], []]))"
proof -
  have f: "forEach (callback this) (split_newline source) initial = initial"
    using assms by (rule forEach_no_match)
  have m: "extractMetadata this source = Inr \<lparr>Meta.style = [], domain = [], variation = []\<rparr>"
    unfolding extractMetadata_def Let_def f by (simp add: initial_def)
  have g: "\<forall>body. readFile [] = Inr body \<longrightarrow>
            getTrio this readFile source =
              (Inr \<lparr>substance = source, style = body, domain = body, variation = []\<rparr>,
               [[], []])"
    by (simp add: getTrio_def invoke_def m)
  from f m g show ?thesis by (simp add: initial_def)
qed

theorem no_annotations_empty_metadata_witness:
  "split_newline (ascii ''Set A\<newline>Point p'') = [ascii ''Set A'', ascii ''Point p''] \<and>
   extractMetadata module_this (ascii ''Set A\<newline>Point p'') =
     Inr \<lparr>Meta.style = [], domain = [], variation = []\<rparr> \<and>
   vault_readFile style_only_vault [] = Inr [] \<and>
   getTrio module_this (vault_readFile style_only_vault) (ascii ''Set A\<newline>Point p'') =
     (Inr \<lparr>substance = ascii ''Set A\<newline>Point p'', style = [], domain = [], variation = []\<rparr>,
      [[], []])"
proof -
  have l: "split_newline (ascii ''Set A\<newline>Point p'') = [ascii ''Set A'', ascii ''Point p'']"
    by code_simp
  have a: "match (ascii ''Set A'') aliasRegex = None" "match (ascii ''Set A'') domainRegex = None"
    "match (ascii ''Set A'') styleRegex = None" "match (ascii ''Set A'') variationRegex = None"
    by code_simp+
  have b: "match (ascii ''Point p'') aliasRegex = None" "match (ascii ''Point p'') domainRegex = None"
    "match (ascii ''Point p'') styleRegex = None" "match (ascii ''Point p'') variationRegex = None"
    by code_simp+
  have h: "\<forall>line \<in> set (split_newline (ascii ''Set A\<newline>Point p'')).
             match line aliasRegex = None \<and> match line domainRegex = None \<and>
             match line styleRegex = None \<and> match line variationRegex = None"
    using a b by (simp add: l)
  have e: "vault_readFile style_only_vault [] = Inr []"
    by code_simp
  show ?thesis
    using l e
      no_annotations_empty_metadata [OF h, of module_this "vault_readFile style_only_vault"]
    by simp
qed

text \<open>
  C6, as the claim has it, fails at the field \<open>aliasName\<close>: the object that
  \<open>extractMetadata\<close> returns for the document \<open>Set A\<close>, which has no annotation, has no
  property of that name, so reading it gives \<open>undefined\<close> and not the empty string.
\<close>

theorem metadata_without_aliasName:
  "match (ascii ''Set A'') aliasRegex = None \<and>
   match (ascii ''Set A'') domainRegex = None \<and>
   match (ascii ''Set A'') styleRegex = None \<and>
   match (ascii ''Set A'') variationRegex = None \<and>
   extractMetadata module_this (ascii ''Set A'') =
     Inr \<lparr>Meta.style = [], domain = [], variation = []\<rparr> \<and>
   property \<lparr>Meta.style = [], domain = [], variation = []\<rparr> ''aliasName'' \<noteq> Some []"
proof -
  have a: "match (ascii ''Set A'') aliasRegex = None" "match (ascii ''Set A'') domainRegex = None"
    "match (ascii ''Set A'') styleRegex = None" "match (ascii ''Set A'') variationRegex = None"
    by code_simp+
  have m: "extractMetadata module_this (ascii ''Set A'') =
     Inr \<lparr>Meta.style = [], domain = [], variation = []\<rparr>"
    by code_simp
  have p: "property \<lparr>Meta.style = [], domain = [], variation = []\<rparr> ''aliasName'' = None"
    by (simp add: property_def)
  from a m p show ?thesis by simp
qed

section \<open>How many expressions match\<close>

lemma match_here_head:
  assumes "match_here (Annotation (k # key)) s = Some g"
  shows "\<exists>r t. s = 0x2D # 0x2D # r \<and> dropWhile isWhiteSpace r = k # t"
proof -
  from assms obtain c1 c2 r where s: "s = c1 # c2 # r"
    by (cases "(Annotation (k # key), s)" rule: match_here.cases) auto
  from assms s have c: "c1 = 0x2D" "c2 = 0x2D"
    and t: "take (Suc (length key)) (dropWhile isWhiteSpace r) = k # key"
    by (auto simp: Let_def split: if_splits)
  from t obtain t' where "dropWhile isWhiteSpace r = k # t'"
    by (cases "dropWhile isWhiteSpace r") auto
  with s c show ?thesis by blast
qed

lemma match_here_heads:
  "match_here aliasRegex s = Some g \<Longrightarrow>
     \<exists>r t. s = 0x2D # 0x2D # r \<and> dropWhile isWhiteSpace r = 0x61 # t"
  "match_here domainRegex s = Some g \<Longrightarrow>
     \<exists>r t. s = 0x2D # 0x2D # r \<and> dropWhile isWhiteSpace r = 0x64 # t"
  "match_here styleRegex s = Some g \<Longrightarrow>
     \<exists>r t. s = 0x2D # 0x2D # r \<and> dropWhile isWhiteSpace r = 0x73 # t"
  "match_here variationRegex s = Some g \<Longrightarrow>
     \<exists>r t. s = 0x2D # 0x2D # r \<and> dropWhile isWhiteSpace r = 0x76 # t"
  using match_here_head [of _ _ s g]
  by (simp_all add: aliasRegex_def domainRegex_def styleRegex_def variationRegex_def ascii_def)

lemma match_here_exclusive:
  "match_here aliasRegex s = None \<or> match_here domainRegex s = None"
  "match_here aliasRegex s = None \<or> match_here styleRegex s = None"
  "match_here aliasRegex s = None \<or> match_here variationRegex s = None"
  "match_here domainRegex s = None \<or> match_here styleRegex s = None"
  "match_here domainRegex s = None \<or> match_here variationRegex s = None"
  "match_here styleRegex s = None \<or> match_here variationRegex s = None"
  using match_here_heads [of s] by fastforce+

text \<open>
  C10, as the claim has it, fails: the expressions are not anchored, so the line
  \<open>-- domain: D -- style: S\<close> is matched by the expression for the domain, at index 0,
  and by the expression for the style, at index 13.
\<close>

theorem two_expressions_match_one_line:
  "match (ascii ''-- domain: D -- style: S'') domainRegex = Some (ascii '' D -- style: S'') \<and>
   match (ascii ''-- domain: D -- style: S'') styleRegex = Some (ascii '' S'') \<and>
   length (filter (\<lambda>re. match (ascii ''-- domain: D -- style: S'') re \<noteq> None)
     [aliasRegex, domainRegex, styleRegex, variationRegex]) = 2"
proof -
  have a: "match (ascii ''-- domain: D -- style: S'') aliasRegex = None"
    by code_simp
  have d: "match (ascii ''-- domain: D -- style: S'') domainRegex = Some (ascii '' D -- style: S'')"
    by code_simp
  have s: "match (ascii ''-- domain: D -- style: S'') styleRegex = Some (ascii '' S'')"
    by code_simp
  have v: "match (ascii ''-- domain: D -- style: S'') variationRegex = None"
    by code_simp
  from a d s v show ?thesis by simp
qed

text \<open>
  C10, as the code has it. At any one index of a line, at most one of the four
  expressions matches with the match starting there: after the two hyphens and the white
  space, the next code unit is the first letter of one keyword only. A line as a whole
  may be matched by several expressions, each at an index of its own.
\<close>

theorem one_expression_per_index:
  "length (filter (\<lambda>re. match_here re (drop i line) \<noteq> None)
     [aliasRegex, domainRegex, styleRegex, variationRegex]) \<le> 1"
  using match_here_exclusive [of "drop i line"] by auto

theorem one_expression_per_index_witness:
  "match_here styleRegex (drop 13 (ascii ''-- domain: D -- style: S'')) = Some (ascii '' S'') \<and>
   length (filter (\<lambda>re. match_here re (drop 13 (ascii ''-- domain: D -- style: S'')) \<noteq> None)
     [aliasRegex, domainRegex, styleRegex, variationRegex]) = 1"
proof -
  have s: "match_here styleRegex (drop 13 (ascii ''-- domain: D -- style: S'')) = Some (ascii '' S'')"
    by code_simp
  show ?thesis
    using s one_expression_per_index [of 13 "ascii ''-- domain: D -- style: S''"]
    by (auto split: if_splits)
qed

section \<open>The form of an annotation line\<close>

lemma match_here_sound:
  assumes "match_here (Annotation key) s = Some g"
  shows "\<exists>ws rest. s = [0x2D, 0x2D] @ ws @ key @ rest \<and> (\<forall>c \<in> set ws. isWhiteSpace c) \<and>
           g = takeWhile (\<lambda>c. \<not> isLineTerminator c) rest"
proof -
  from assms obtain c1 c2 r where s: "s = c1 # c2 # r"
    by (cases "(Annotation key, s)" rule: match_here.cases) auto
  define r' where "r' = dropWhile isWhiteSpace r"
  from assms s have c: "c1 = 0x2D" "c2 = 0x2D"
    and k: "take (length key) r' = key"
    and g: "g = takeWhile (\<lambda>c. \<not> isLineTerminator c) (drop (length key) r')"
    by (auto simp: r'_def Let_def split: if_splits)
  have r: "r = takeWhile isWhiteSpace r @ r'"
    by (simp add: r'_def)
  have "r' = take (length key) r' @ drop (length key) r'"
    by simp
  with k have k': "r' = key @ drop (length key) r'"
    by simp
  have w: "\<forall>c \<in> set (takeWhile isWhiteSpace r). isWhiteSpace c"
    by (auto dest: set_takeWhileD)
  have "s = [0x2D, 0x2D] @ takeWhile isWhiteSpace r @ key @ drop (length key) r'"
    using s c r k' by simp
  with w g show ?thesis by blast
qed

lemma match_sound:
  assumes "match line (Annotation key) = Some g"
  shows "\<exists>pre ws rest. line = pre @ [0x2D, 0x2D] @ ws @ key @ rest \<and>
           (\<forall>c \<in> set ws. isWhiteSpace c) \<and>
           g = takeWhile (\<lambda>c. \<not> isLineTerminator c) rest"
  using assms
proof (induction line)
  case Nil
  then show ?case by simp
next
  case (Cons c cs)
  show ?case
  proof (cases "match_here (Annotation key) (c # cs)")
    case None
    with Cons.prems have "match cs (Annotation key) = Some g"
      by simp
    from Cons.IH [OF this] obtain pre ws rest
      where "cs = pre @ [0x2D, 0x2D] @ ws @ key @ rest"
        and w: "\<forall>c \<in> set ws. isWhiteSpace c"
        and g: "g = takeWhile (\<lambda>c. \<not> isLineTerminator c) rest"
      by blast
    then have "c # cs = (c # pre) @ [0x2D, 0x2D] @ ws @ key @ rest"
      by simp
    with w g show ?thesis by blast
  next
    case (Some g')
    with Cons.prems have "g' = g"
      by simp
    with Some match_here_sound [of key "c # cs" g] obtain ws rest
      where "c # cs = [] @ [0x2D, 0x2D] @ ws @ key @ rest"
        and w: "\<forall>c \<in> set ws. isWhiteSpace c"
        and g: "g = takeWhile (\<lambda>c. \<not> isLineTerminator c) rest"
      by auto
    then show ?thesis by blast
  qed
qed

lemma match_here_complete:
  assumes "\<forall>c \<in> set ws. isWhiteSpace c" and "\<not> isWhiteSpace k"
  shows "match_here (Annotation (k # key)) ([0x2D, 0x2D] @ ws @ (k # key) @ rest) =
           Some (takeWhile (\<lambda>c. \<not> isLineTerminator c) rest)"
proof -
  have "dropWhile isWhiteSpace (ws @ (k # key) @ rest) = (k # key) @ rest"
    using assms by (simp add: dropWhile_append2)
  then show ?thesis by simp
qed

lemma match_complete:
  assumes "\<forall>c \<in> set ws. isWhiteSpace c" and "\<not> isWhiteSpace k"
  shows "match (pre @ [0x2D, 0x2D] @ ws @ (k # key) @ rest) (Annotation (k # key)) \<noteq> None"
proof (induction pre)
  case Nil
  have "match_here (Annotation (k # key)) (0x2D # 0x2D # ws @ (k # key) @ rest) \<noteq> None"
    using match_here_complete [OF assms, of key rest] by simp
  then show ?case by auto
next
  case (Cons c pre)
  then show ?case by (auto split: option.split)
qed

lemma match_here_iff:
  assumes "\<not> isWhiteSpace k"
  shows "match_here (Annotation (k # key)) s = Some g \<longleftrightarrow>
           (\<exists>ws rest. s = [0x2D, 0x2D] @ ws @ (k # key) @ rest \<and>
              (\<forall>c \<in> set ws. isWhiteSpace c) \<and>
              g = takeWhile (\<lambda>c. \<not> isLineTerminator c) rest)"
proof
  assume "match_here (Annotation (k # key)) s = Some g"
  then show "\<exists>ws rest. s = [0x2D, 0x2D] @ ws @ (k # key) @ rest \<and>
              (\<forall>c \<in> set ws. isWhiteSpace c) \<and>
              g = takeWhile (\<lambda>c. \<not> isLineTerminator c) rest"
    by (rule match_here_sound)
next
  assume "\<exists>ws rest. s = [0x2D, 0x2D] @ ws @ (k # key) @ rest \<and>
              (\<forall>c \<in> set ws. isWhiteSpace c) \<and>
              g = takeWhile (\<lambda>c. \<not> isLineTerminator c) rest"
  then obtain ws rest where s: "s = [0x2D, 0x2D] @ ws @ (k # key) @ rest"
    and w: "\<forall>c \<in> set ws. isWhiteSpace c"
    and g: "g = takeWhile (\<lambda>c. \<not> isLineTerminator c) rest"
    by blast
  show "match_here (Annotation (k # key)) s = Some g"
    unfolding s g by (rule match_here_complete [OF w assms])
qed

lemma match_leftmost:
  "match line re = Some g \<longleftrightarrow>
     (\<exists>n \<le> length line. match_here re (drop n line) = Some g \<and>
        (\<forall>i < n. match_here re (drop i line) = None))"
proof (induction line)
  case Nil
  then show ?case by simp
next
  case (Cons c cs)
  show ?case
  proof (cases "match_here re (c # cs)")
    case None
    have "(\<exists>n \<le> length (c # cs). match_here re (drop n (c # cs)) = Some g \<and>
             (\<forall>i < n. match_here re (drop i (c # cs)) = None)) \<longleftrightarrow>
          (\<exists>m \<le> length cs. match_here re (drop m cs) = Some g \<and>
             (\<forall>j < m. match_here re (drop j cs) = None))"
      (is "?L \<longleftrightarrow> ?R")
    proof
      assume ?L
      then obtain n where n: "n \<le> length (c # cs)"
        and h: "match_here re (drop n (c # cs)) = Some g"
        and b: "\<forall>i < n. match_here re (drop i (c # cs)) = None"
        by blast
      from h None have "n \<noteq> 0"
        by (cases n) auto
      then obtain m where m: "n = Suc m"
        by (cases n) auto
      have "\<forall>j < m. match_here re (drop j cs) = None"
      proof (intro allI impI)
        fix j assume "j < m"
        then have "Suc j < n" using m by simp
        with b have "match_here re (drop (Suc j) (c # cs)) = None" by blast
        then show "match_here re (drop j cs) = None" by simp
      qed
      with n h m show ?R by auto
    next
      assume ?R
      then obtain m where m: "m \<le> length cs"
        and h: "match_here re (drop m cs) = Some g"
        and b: "\<forall>j < m. match_here re (drop j cs) = None"
        by blast
      have "\<forall>i < Suc m. match_here re (drop i (c # cs)) = None"
      proof (intro allI impI)
        fix i assume i: "i < Suc m"
        show "match_here re (drop i (c # cs)) = None"
        proof (cases i)
          case 0
          with None show ?thesis by simp
        next
          case (Suc j)
          with i b show ?thesis by simp
        qed
      qed
      moreover have "Suc m \<le> length (c # cs)" using m by simp
      moreover have "match_here re (drop (Suc m) (c # cs)) = Some g" using h by simp
      ultimately show ?L by blast
    qed
    with None Cons.IH show ?thesis by simp
  next
    case (Some g')
    have "(\<exists>n \<le> length (c # cs). match_here re (drop n (c # cs)) = Some g \<and>
             (\<forall>i < n. match_here re (drop i (c # cs)) = None)) \<longleftrightarrow> g' = g"
      (is "?L \<longleftrightarrow> _")
    proof
      assume ?L
      then obtain n where h: "match_here re (drop n (c # cs)) = Some g"
        and b: "\<forall>i < n. match_here re (drop i (c # cs)) = None"
        by blast
      have "n = 0"
      proof (rule ccontr)
        assume "n \<noteq> 0"
        then have "0 < n" by simp
        with b have "match_here re (drop 0 (c # cs)) = None" by blast
        with Some show False by simp
      qed
      with h Some show "g' = g" by simp
    next
      assume "g' = g"
      with Some have "match_here re (drop 0 (c # cs)) = Some g" by simp
      then show ?L by blast
    qed
    with Some show ?thesis by simp
  qed
qed

lemma match_leftmost_occurrence:
  assumes k: "\<not> isWhiteSpace k"
  shows "match line (Annotation (k # key)) = Some g \<longleftrightarrow>
           (\<exists>pre ws rest.
              line = pre @ [0x2D, 0x2D] @ ws @ (k # key) @ rest \<and>
              (\<forall>c \<in> set ws. isWhiteSpace c) \<and>
              g = takeWhile (\<lambda>c. \<not> isLineTerminator c) rest \<and>
              (\<forall>pre' ws' rest'.
                 line = pre' @ [0x2D, 0x2D] @ ws' @ (k # key) @ rest' \<and>
                 (\<forall>c \<in> set ws'. isWhiteSpace c) \<longrightarrow> length pre \<le> length pre'))"
  (is "?M \<longleftrightarrow> ?D")
proof
  assume ?M
  then obtain n where n: "n \<le> length line"
    and h: "match_here (Annotation (k # key)) (drop n line) = Some g"
    and b: "\<forall>i < n. match_here (Annotation (k # key)) (drop i line) = None"
    using match_leftmost [of line "Annotation (k # key)" g] by blast
  from h obtain ws rest where d: "drop n line = [0x2D, 0x2D] @ ws @ (k # key) @ rest"
    and w: "\<forall>c \<in> set ws. isWhiteSpace c"
    and g: "g = takeWhile (\<lambda>c. \<not> isLineTerminator c) rest"
    using match_here_iff [OF k, of key "drop n line" g] by blast
  have l: "line = take n line @ [0x2D, 0x2D] @ ws @ (k # key) @ rest"
    using d append_take_drop_id [of n line] by simp
  have len: "length (take n line) = n"
    using n by simp
  have least: "\<forall>pre' ws' rest'.
                 line = pre' @ [0x2D, 0x2D] @ ws' @ (k # key) @ rest' \<and>
                 (\<forall>c \<in> set ws'. isWhiteSpace c) \<longrightarrow> length (take n line) \<le> length pre'"
  proof (intro allI impI)
    fix pre' ws' rest'
    assume a: "line = pre' @ [0x2D, 0x2D] @ ws' @ (k # key) @ rest' \<and>
                 (\<forall>c \<in> set ws'. isWhiteSpace c)"
    then have "drop (length pre') line = [0x2D, 0x2D] @ ws' @ (k # key) @ rest'"
      by simp
    with a have "match_here (Annotation (k # key)) (drop (length pre') line) =
                   Some (takeWhile (\<lambda>c. \<not> isLineTerminator c) rest')"
      using match_here_iff [OF k, of key "drop (length pre') line"] by blast
    with b have "\<not> length pre' < n"
      by auto
    with len show "length (take n line) \<le> length pre'"
      by simp
  qed
  from l w g least show ?D by blast
next
  assume ?D
  then obtain pre ws rest where l: "line = pre @ [0x2D, 0x2D] @ ws @ (k # key) @ rest"
    and w: "\<forall>c \<in> set ws. isWhiteSpace c"
    and g: "g = takeWhile (\<lambda>c. \<not> isLineTerminator c) rest"
    and least: "\<forall>pre' ws' rest'.
                 line = pre' @ [0x2D, 0x2D] @ ws' @ (k # key) @ rest' \<and>
                 (\<forall>c \<in> set ws'. isWhiteSpace c) \<longrightarrow> length pre \<le> length pre'"
    by blast
  from l have d: "drop (length pre) line = [0x2D, 0x2D] @ ws @ (k # key) @ rest"
    by simp
  with w g have h: "match_here (Annotation (k # key)) (drop (length pre) line) = Some g"
    using match_here_iff [OF k, of key "drop (length pre) line" g] by blast
  have b: "\<forall>i < length pre. match_here (Annotation (k # key)) (drop i line) = None"
  proof (intro allI impI)
    fix i assume i: "i < length pre"
    show "match_here (Annotation (k # key)) (drop i line) = None"
    proof (cases "match_here (Annotation (k # key)) (drop i line)")
      case None
      then show ?thesis .
    next
      case (Some g')
      then obtain ws' rest' where d': "drop i line = [0x2D, 0x2D] @ ws' @ (k # key) @ rest'"
        and w': "\<forall>c \<in> set ws'. isWhiteSpace c"
        using match_here_iff [OF k, of key "drop i line" g'] by blast
      have "line = take i line @ [0x2D, 0x2D] @ ws' @ (k # key) @ rest'"
        using d' append_take_drop_id [of i line] by simp
      with w' least have "length pre \<le> length (take i line)"
        by blast
      moreover have "length (take i line) \<le> i"
        by simp
      ultimately show ?thesis using i by simp
    qed
  qed
  have "length pre \<le> length line"
    using l by simp
  with h b show ?M
    using match_leftmost [of line "Annotation (k # key)" g] by blast
qed

lemma keyword_heads:
  "aliasRegex = Annotation (0x61 # ascii ''lias:'')"
  "domainRegex = Annotation (0x64 # ascii ''omain:'')"
  "styleRegex = Annotation (0x73 # ascii ''tyle:'')"
  "variationRegex = Annotation (0x76 # ascii ''ariation:'')"
  "\<not> isWhiteSpace 0x61" "\<not> isWhiteSpace 0x64" "\<not> isWhiteSpace 0x73" "\<not> isWhiteSpace 0x76"
  by (simp_all add: aliasRegex_def domainRegex_def styleRegex_def variationRegex_def
      ascii_def isWhiteSpace_def isLineTerminator_def)

lemma callback_stores_trimmed:
  "match line aliasRegex = Some g \<Longrightarrow> aliasName (snd (callback this line vs)) = trim g"
  "fst (callback this line vs) = Inr () \<Longrightarrow> match line domainRegex = Some g \<Longrightarrow>
     Locals.domain (snd (callback this line vs)) = trim g"
  "fst (callback this line vs) = Inr () \<Longrightarrow> match line styleRegex = Some g \<Longrightarrow>
     Locals.style (snd (callback this line vs)) = trim g"
  "fst (callback this line vs) = Inr () \<Longrightarrow> match line variationRegex = Some g \<Longrightarrow>
     Locals.variation (snd (callback this line vs)) = trim g"
  by (auto simp: callback_def alias_block_def Let_def blocks_fields
      split: option.splits sum.splits)

lemma alias_lookup_throws:
  "alias_lookup this name = Inl TypeError"
  by (cases this) simp_all

lemma callback_cases:
  "callback this line vs =
     (case match line aliasRegex of
        None \<Rightarrow> (Inr (), variation_block line (style_block line (domain_block line vs)))
      | Some g \<Rightarrow> (Inl TypeError, vs\<lparr>aliasName := trim g\<rparr>))"
  by (simp add: callback_def alias_block_def Let_def alias_lookup_throws split: option.split)

lemma callback_sets_only:
  "aliasName (snd (callback this line vs)) \<noteq> aliasName vs \<Longrightarrow>
     \<exists>g. match line aliasRegex = Some g \<and> aliasName (snd (callback this line vs)) = trim g"
  "Locals.domain (snd (callback this line vs)) \<noteq> Locals.domain vs \<Longrightarrow>
     \<exists>g. match line domainRegex = Some g \<and> Locals.domain (snd (callback this line vs)) = trim g"
  "Locals.style (snd (callback this line vs)) \<noteq> Locals.style vs \<Longrightarrow>
     \<exists>g. match line styleRegex = Some g \<and> Locals.style (snd (callback this line vs)) = trim g"
  "Locals.variation (snd (callback this line vs)) \<noteq> Locals.variation vs \<Longrightarrow>
     \<exists>g. match line variationRegex = Some g \<and>
       Locals.variation (snd (callback this line vs)) = trim g"
  by (auto simp: callback_cases blocks_fields split: option.splits)

lemma annotation_regex_leftmost:
  assumes "re \<in> {aliasRegex, domainRegex, styleRegex, variationRegex}"
    and "re = Annotation key"
  shows "match line re = Some g \<longleftrightarrow>
           (\<exists>pre ws rest.
              line = pre @ [0x2D, 0x2D] @ ws @ key @ rest \<and>
              (\<forall>c \<in> set ws. isWhiteSpace c) \<and>
              g = takeWhile (\<lambda>c. \<not> isLineTerminator c) rest \<and>
              (\<forall>pre' ws' rest'.
                 line = pre' @ [0x2D, 0x2D] @ ws' @ key @ rest' \<and>
                 (\<forall>c \<in> set ws'. isWhiteSpace c) \<longrightarrow> length pre \<le> length pre'))"
proof -
  from assms(1) consider "re = aliasRegex" | "re = domainRegex" | "re = styleRegex"
    | "re = variationRegex"
    by blast
  then have "\<exists>k key'. key = k # key' \<and> \<not> isWhiteSpace k"
  proof cases
    case 1
    with assms(2) keyword_heads(1) have "Annotation key = Annotation (0x61 # ascii ''lias:'')"
      by metis
    then have "key = 0x61 # ascii ''lias:''" by simp
    with keyword_heads(5) show ?thesis by blast
  next
    case 2
    with assms(2) keyword_heads(2) have "Annotation key = Annotation (0x64 # ascii ''omain:'')"
      by metis
    then have "key = 0x64 # ascii ''omain:''" by simp
    with keyword_heads(6) show ?thesis by blast
  next
    case 3
    with assms(2) keyword_heads(3) have "Annotation key = Annotation (0x73 # ascii ''tyle:'')"
      by metis
    then have "key = 0x73 # ascii ''tyle:''" by simp
    with keyword_heads(7) show ?thesis by blast
  next
    case 4
    with assms(2) keyword_heads(4) have "Annotation key = Annotation (0x76 # ascii ''ariation:'')"
      by metis
    then have "key = 0x76 # ascii ''ariation:''" by simp
    with keyword_heads(8) show ?thesis by blast
  qed
  then obtain k key' where key: "key = k # key'" and k: "\<not> isWhiteSpace k"
    by blast
  show ?thesis
    unfolding assms(2) key by (rule match_leftmost_occurrence [OF k])
qed

text \<open>
  C5, as the claim has it, fails in three ways. The group \<open>(.*)\<close> stops at a carriage
  return (and at U+2028, U+2029), which \<open>split\<close> leaves inside a line: for the line
  \<open>-- domain: a\<close>, CR, \<open>b\<close>, which has the form of the specification, the text after the
  colon, trimmed, is \<open>a\<close>, CR, \<open>b\<close>, and the callback stores \<open>a\<close>. The expressions are not
  anchored at the start of the line: \<open>Point p -- domain: x.domain\<close> has the form of none
  of the four annotations, and the callback sets the domain to \<open>x.domain\<close>. The white
  space after the prefix may be missing: \<open>--domain:x\<close> has none of the four forms either,
  and the callback sets the domain to \<open>x\<close>.
\<close>

theorem annotation_lines_beyond_spec_form:
  "spec_annotation_line domainRegex (ascii ''-- domain: a'' @ [0x0D] @ ascii ''b'') \<and>
   spec_value domainRegex (ascii ''-- domain: a'' @ [0x0D] @ ascii ''b'') =
     ascii ''a'' @ [0x0D] @ ascii ''b'' \<and>
   Locals.domain (snd (callback module_this
     (ascii ''-- domain: a'' @ [0x0D] @ ascii ''b'') initial)) = ascii ''a'' \<and>
   \<not> spec_annotation_line aliasRegex (ascii ''Point p -- domain: x.domain'') \<and>
   \<not> spec_annotation_line domainRegex (ascii ''Point p -- domain: x.domain'') \<and>
   \<not> spec_annotation_line styleRegex (ascii ''Point p -- domain: x.domain'') \<and>
   \<not> spec_annotation_line variationRegex (ascii ''Point p -- domain: x.domain'') \<and>
   Locals.domain (snd (callback module_this
     (ascii ''Point p -- domain: x.domain'') initial)) = ascii ''x.domain'' \<and>
   \<not> spec_annotation_line aliasRegex (ascii ''--domain:x'') \<and>
   \<not> spec_annotation_line domainRegex (ascii ''--domain:x'') \<and>
   \<not> spec_annotation_line styleRegex (ascii ''--domain:x'') \<and>
   \<not> spec_annotation_line variationRegex (ascii ''--domain:x'') \<and>
   Locals.domain (snd (callback module_this (ascii ''--domain:x'') initial)) = ascii ''x''"
proof -
  have a: "spec_annotation_line domainRegex (ascii ''-- domain: a'' @ [0x0D] @ ascii ''b'')"
    by code_simp
  have b: "spec_value domainRegex (ascii ''-- domain: a'' @ [0x0D] @ ascii ''b'') =
     ascii ''a'' @ [0x0D] @ ascii ''b''"
    by code_simp
  have c: "Locals.domain (snd (callback module_this
     (ascii ''-- domain: a'' @ [0x0D] @ ascii ''b'') initial)) = ascii ''a''"
    by code_simp
  have d: "\<not> spec_annotation_line aliasRegex (ascii ''Point p -- domain: x.domain'')"
    "\<not> spec_annotation_line domainRegex (ascii ''Point p -- domain: x.domain'')"
    "\<not> spec_annotation_line styleRegex (ascii ''Point p -- domain: x.domain'')"
    "\<not> spec_annotation_line variationRegex (ascii ''Point p -- domain: x.domain'')"
    by code_simp+
  have e: "Locals.domain (snd (callback module_this
     (ascii ''Point p -- domain: x.domain'') initial)) = ascii ''x.domain''"
    by code_simp
  have f: "\<not> spec_annotation_line aliasRegex (ascii ''--domain:x'')"
    "\<not> spec_annotation_line domainRegex (ascii ''--domain:x'')"
    "\<not> spec_annotation_line styleRegex (ascii ''--domain:x'')"
    "\<not> spec_annotation_line variationRegex (ascii ''--domain:x'')"
    by code_simp+
  have g: "Locals.domain (snd (callback module_this (ascii ''--domain:x'') initial)) = ascii ''x''"
    by code_simp
  from a b c d e f g show ?thesis
    by (intro conjI)
qed

text \<open>
  C5, as the code has it. A line that none of the four expressions matches leaves every
  variable as it was. An expression matches a line exactly when the line holds,
  somewhere, two hyphens, then white space or nothing, then the keyword with its colon,
  in these very code units (so \<open>-- Domain:\<close> and \<open>-- domain :\<close> match nothing); the group
  is then the text after the colon of the leftmost such place, up to the first line
  terminator or the end of the line. A variable changes only on a line that its own
  expression matches, and then to the group, trimmed. The trimmed group is stored in
  \<open>aliasName\<close> for the alias expression, and in the variable of the keyword for the other
  three when the callback is fulfilled.
\<close>

theorem accumulators_set_by_annotation_lines:
  "(match line aliasRegex = None \<and> match line domainRegex = None \<and>
    match line styleRegex = None \<and> match line variationRegex = None \<longrightarrow>
      callback this line vs = (Inr (), vs)) \<and>
   (\<forall>re key g. re \<in> {aliasRegex, domainRegex, styleRegex, variationRegex} \<and>
      re = Annotation key \<longrightarrow>
        (match line re = Some g \<longleftrightarrow>
           (\<exists>pre ws rest.
              line = pre @ [0x2D, 0x2D] @ ws @ key @ rest \<and>
              (\<forall>c \<in> set ws. isWhiteSpace c) \<and>
              g = takeWhile (\<lambda>c. \<not> isLineTerminator c) rest \<and>
              (\<forall>pre' ws' rest'.
                 line = pre' @ [0x2D, 0x2D] @ ws' @ key @ rest' \<and>
                 (\<forall>c \<in> set ws'. isWhiteSpace c) \<longrightarrow> length pre \<le> length pre')))) \<and>
   (aliasName (snd (callback this line vs)) \<noteq> aliasName vs \<longrightarrow>
      (\<exists>g. match line aliasRegex = Some g \<and>
         aliasName (snd (callback this line vs)) = trim g)) \<and>
   (Locals.domain (snd (callback this line vs)) \<noteq> Locals.domain vs \<longrightarrow>
      (\<exists>g. match line domainRegex = Some g \<and>
         Locals.domain (snd (callback this line vs)) = trim g)) \<and>
   (Locals.style (snd (callback this line vs)) \<noteq> Locals.style vs \<longrightarrow>
      (\<exists>g. match line styleRegex = Some g \<and>
         Locals.style (snd (callback this line vs)) = trim g)) \<and>
   (Locals.variation (snd (callback this line vs)) \<noteq> Locals.variation vs \<longrightarrow>
      (\<exists>g. match line variationRegex = Some g \<and>
         Locals.variation (snd (callback this line vs)) = trim g)) \<and>
   (\<forall>g. match line aliasRegex = Some g \<longrightarrow>
      aliasName (snd (callback this line vs)) = trim g) \<and>
   (\<forall>g. fst (callback this line vs) = Inr () \<and> match line domainRegex = Some g \<longrightarrow>
      Locals.domain (snd (callback this line vs)) = trim g) \<and>
   (\<forall>g. fst (callback this line vs) = Inr () \<and> match line styleRegex = Some g \<longrightarrow>
      Locals.style (snd (callback this line vs)) = trim g) \<and>
   (\<forall>g. fst (callback this line vs) = Inr () \<and> match line variationRegex = Some g \<longrightarrow>
      Locals.variation (snd (callback this line vs)) = trim g) \<and>
   match (ascii ''-- Domain: x'') domainRegex = None \<and>
   match (ascii ''-- domain : x'') domainRegex = None"
proof -
  have a: "match line aliasRegex = None \<and> match line domainRegex = None \<and>
    match line styleRegex = None \<and> match line variationRegex = None \<longrightarrow>
      callback this line vs = (Inr (), vs)"
    by (simp add: callback_no_match)
  have b: "\<forall>re key g. re \<in> {aliasRegex, domainRegex, styleRegex, variationRegex} \<and>
      re = Annotation key \<longrightarrow>
        (match line re = Some g \<longleftrightarrow>
           (\<exists>pre ws rest.
              line = pre @ [0x2D, 0x2D] @ ws @ key @ rest \<and>
              (\<forall>c \<in> set ws. isWhiteSpace c) \<and>
              g = takeWhile (\<lambda>c. \<not> isLineTerminator c) rest \<and>
              (\<forall>pre' ws' rest'.
                 line = pre' @ [0x2D, 0x2D] @ ws' @ key @ rest' \<and>
                 (\<forall>c \<in> set ws'. isWhiteSpace c) \<longrightarrow> length pre \<le> length pre')))"
  proof (intro allI impI)
    fix re key g
    assume "re \<in> {aliasRegex, domainRegex, styleRegex, variationRegex} \<and> re = Annotation key"
    then have r: "re \<in> {aliasRegex, domainRegex, styleRegex, variationRegex}"
      and k: "re = Annotation key"
      by blast+
    show "match line re = Some g \<longleftrightarrow>
           (\<exists>pre ws rest.
              line = pre @ [0x2D, 0x2D] @ ws @ key @ rest \<and>
              (\<forall>c \<in> set ws. isWhiteSpace c) \<and>
              g = takeWhile (\<lambda>c. \<not> isLineTerminator c) rest \<and>
              (\<forall>pre' ws' rest'.
                 line = pre' @ [0x2D, 0x2D] @ ws' @ key @ rest' \<and>
                 (\<forall>c \<in> set ws'. isWhiteSpace c) \<longrightarrow> length pre \<le> length pre'))"
      by (rule annotation_regex_leftmost [OF r k])
  qed
  have c1: "aliasName (snd (callback this line vs)) \<noteq> aliasName vs \<longrightarrow>
      (\<exists>g. match line aliasRegex = Some g \<and>
         aliasName (snd (callback this line vs)) = trim g)"
    by (rule impI) (rule callback_sets_only(1))
  have c2: "Locals.domain (snd (callback this line vs)) \<noteq> Locals.domain vs \<longrightarrow>
      (\<exists>g. match line domainRegex = Some g \<and>
         Locals.domain (snd (callback this line vs)) = trim g)"
    by (rule impI) (rule callback_sets_only(2))
  have c3: "Locals.style (snd (callback this line vs)) \<noteq> Locals.style vs \<longrightarrow>
      (\<exists>g. match line styleRegex = Some g \<and>
         Locals.style (snd (callback this line vs)) = trim g)"
    by (rule impI) (rule callback_sets_only(3))
  have c4: "Locals.variation (snd (callback this line vs)) \<noteq> Locals.variation vs \<longrightarrow>
      (\<exists>g. match line variationRegex = Some g \<and>
         Locals.variation (snd (callback this line vs)) = trim g)"
    by (rule impI) (rule callback_sets_only(4))
  have d: "\<forall>g. match line aliasRegex = Some g \<longrightarrow>
      aliasName (snd (callback this line vs)) = trim g"
    by (simp add: callback_stores_trimmed)
  have e: "\<forall>g. fst (callback this line vs) = Inr () \<and> match line domainRegex = Some g \<longrightarrow>
      Locals.domain (snd (callback this line vs)) = trim g"
    by (simp add: callback_stores_trimmed)
  have f: "\<forall>g. fst (callback this line vs) = Inr () \<and> match line styleRegex = Some g \<longrightarrow>
      Locals.style (snd (callback this line vs)) = trim g"
    by (simp add: callback_stores_trimmed)
  have g: "\<forall>g. fst (callback this line vs) = Inr () \<and> match line variationRegex = Some g \<longrightarrow>
      Locals.variation (snd (callback this line vs)) = trim g"
    by (simp add: callback_stores_trimmed)
  have h: "match (ascii ''-- Domain: x'') domainRegex = None"
    by code_simp
  have i: "match (ascii ''-- domain : x'') domainRegex = None"
    by code_simp
  from a b c1 c2 c3 c4 d e f g h i show ?thesis
    by (intro conjI)
qed

theorem accumulators_set_by_annotation_lines_witness:
  "match (ascii ''Point p --style: A -- style: B  '') styleRegex =
     Some (ascii '' A -- style: B  '') \<and>
   fst (callback module_this (ascii ''Point p --style: A -- style: B  '') initial) = Inr () \<and>
   Locals.style (snd (callback module_this (ascii ''Point p --style: A -- style: B  '') initial)) =
     ascii ''A -- style: B'' \<and>
   match (ascii ''Set A'') aliasRegex = None \<and> match (ascii ''Set A'') domainRegex = None \<and>
   match (ascii ''Set A'') styleRegex = None \<and> match (ascii ''Set A'') variationRegex = None \<and>
   callback module_this (ascii ''Set A'') initial = (Inr (), initial)"
proof -
  have m: "match (ascii ''Point p --style: A -- style: B  '') styleRegex =
     Some (ascii '' A -- style: B  '')"
    by code_simp
  have p: "fst (callback module_this (ascii ''Point p --style: A -- style: B  '') initial) = Inr ()"
    by code_simp
  have t: "trim (ascii '' A -- style: B  '') = ascii ''A -- style: B''"
    by code_simp
  have n: "match (ascii ''Set A'') aliasRegex = None" "match (ascii ''Set A'') domainRegex = None"
    "match (ascii ''Set A'') styleRegex = None" "match (ascii ''Set A'') variationRegex = None"
    by code_simp+
  have s: "\<forall>g. fst (callback module_this (ascii ''Point p --style: A -- style: B  '') initial) =
             Inr () \<and>
           match (ascii ''Point p --style: A -- style: B  '') styleRegex = Some g \<longrightarrow>
           Locals.style (snd (callback module_this
             (ascii ''Point p --style: A -- style: B  '') initial)) = trim g"
    by (rule accumulators_set_by_annotation_lines
        [of "ascii ''Point p --style: A -- style: B  ''" module_this initial,
         THEN conjunct2, THEN conjunct2, THEN conjunct2, THEN conjunct2, THEN conjunct2,
         THEN conjunct2, THEN conjunct2, THEN conjunct2, THEN conjunct1])
  have v: "Locals.style (snd (callback module_this (ascii ''Point p --style: A -- style: B  '') initial)) =
     ascii ''A -- style: B''"
    using m p t s by simp
  have u: "callback module_this (ascii ''Set A'') initial = (Inr (), initial)"
    using n accumulators_set_by_annotation_lines
        [of "ascii ''Set A''" module_this initial, THEN conjunct1]
    by simp
  from m p v n u show ?thesis by simp
qed

end
